theory Spec2Isabelle
  imports Complex_Main "HOL-Library.Product_Lexorder"
begin

chapter \<open>The model\<close>

text \<open>
  A shallow embedding of the three problems of the repository: the three sums of
  problem 4 and the id validation of problem 5 (JavaScript and TypeScript), and of
  problem 6 the code of its architecture decision records and flow diagram (the token
  bucket and the rate limiting middleware of ADR-007, the validation of action proofs of
  ADR-005, the tables and leaderboard queries of ADR-006, and phases 5 to 9 of the
  score update request).
\<close>

section \<open>JavaScript numbers on integer values\<close>

text \<open>
  A JavaScript number is an IEEE 754 double. The functions verified here are run on
  integers, and every intermediate result is an integer again, so a number is modelled
  by the integer it denotes and each arithmetic operation by the exact operation followed
  by rounding to the nearest double (ties to the even significand). A double has a 53-bit
  significand: below \<open>2 ^ 53\<close> every integer is a double, from there on only the multiples
  of \<open>ulp_of\<close>. Magnitudes beyond the double range (about \<open>1.8e308\<close>) are not modelled.
\<close>

function ulp_of :: "int \<Rightarrow> int" where
  "ulp_of m = (if m < 2 ^ 53 then 1 else 2 * ulp_of (m div 2))"
  by pat_completeness auto
termination
  by (relation "measure nat") auto

declare ulp_of.simps [simp del]

definition round_even :: "int \<Rightarrow> int" where
  "round_even m =
     (let q = ulp_of m; k = m div q; r = m mod q
      in if 2 * r < q then k * q
         else if q < 2 * r then (k + 1) * q
         else if even k then k * q else (k + 1) * q)"

definition to_number :: "int \<Rightarrow> int" where
  "to_number x = (if x < 0 then - round_even (- x) else round_even x)"

section \<open>Problem 4: three ways to sum to n\<close>

text \<open>
  \<^verbatim>\<open>for (var i = 1; i <= n; i++) { sum += i; }\<close>: the loop of \<open>sum_to_n_a\<close>, with the
  state \<open>(i, sum)\<close>. \<open>None\<close> is a loop that never ends (\<open>i++\<close> stops moving at \<open>2 ^ 53\<close>).
\<close>

partial_function (option) sum_to_n_a_loop :: "int \<Rightarrow> int \<Rightarrow> int \<Rightarrow> int option" where
  "sum_to_n_a_loop n i sm =
     (if i \<le> n then sum_to_n_a_loop n (to_number (i + 1)) (to_number (sm + i)) else Some sm)"

definition sum_to_n_a :: "int \<Rightarrow> int option" where
  "sum_to_n_a n = sum_to_n_a_loop n 1 0"

text \<open>
  \<^verbatim>\<open>return n * (n + 1) / 2\<close>. The product handed to the division is even (it is
  either exact, or a double of at least \<open>2 ^ 53\<close>), so halving it is exact.
\<close>

definition sum_to_n_b :: "int \<Rightarrow> int" where
  "sum_to_n_b n = to_number (n * to_number (n + 1)) div 2"

text \<open>
  \<^verbatim>\<open>if (n <= 0) return 0; return n + sum_to_n_c(n - 1);\<close> Every call that has not
  returned holds a frame of the call stack, and a call the stack has no room for throws
  \<open>RangeError\<close> ("Maximum call stack size exceeded"), as the comment above the function and
  the \<open>try\<close> around its call expect. The first argument is the room left when the function
  is called: the number of further nested calls the stack can hold. It depends on the
  engine and its settings.
\<close>

datatype js_error = RangeError

fun sum_to_n_c :: "nat \<Rightarrow> int \<Rightarrow> js_error + int" where
  "sum_to_n_c 0 n = (if n \<le> 0 then Inr 0 else Inl RangeError)"
| "sum_to_n_c (Suc room) n =
     (if n \<le> 0 then Inr 0
      else case sum_to_n_c room (to_number (n - 1)) of
             Inl e \<Rightarrow> Inl e
           | Inr r \<Rightarrow> Inr (to_number (n + r)))"


section \<open>Problem 5: \<open>InputValidator.validateId\<close>\<close>

text \<open>
  A JavaScript string is a sequence of UTF-16 code units. \<open>utf16\<close> writes an ASCII
  literal as one.
\<close>

type_synonym js_string = "nat list"

definition utf16 :: "string \<Rightarrow> js_string" where
  "utf16 s = map of_char s"

text \<open>
  The code units \<open>String.prototype.trim\<close> and \<open>parseInt\<close> skip: the WhiteSpace and
  LineTerminator productions of ECMAScript (TAB, LF, VT, FF, CR, SP, NBSP, U+1680,
  U+2000 to U+200A, U+2028, U+2029, U+202F, U+205F, U+3000, U+FEFF).
\<close>

definition is_white_space :: "nat \<Rightarrow> bool" where
  "is_white_space c =
     (c \<in> {9, 10, 11, 12, 13, 32, 160, 5760, 8232, 8233, 8239, 8287, 12288, 65279}
      \<or> (8192 \<le> c \<and> c \<le> 8202))"

definition trim :: "js_string \<Rightarrow> js_string" where
  "trim s = rev (dropWhile is_white_space (rev (dropWhile is_white_space s)))"

text \<open>\<open>\d\<close> of a regular expression: the ASCII digits \<open>0\<close> to \<open>9\<close>.\<close>

definition is_digit :: "nat \<Rightarrow> bool" where
  "is_digit c = (48 \<le> c \<and> c \<le> 57)"

text \<open>\<^verbatim>\<open>/^\d+$/.test(s)\<close>: one digit or more, and nothing else.\<close>

definition digits_only :: "js_string \<Rightarrow> bool" where
  "digits_only s = (s \<noteq> [] \<and> list_all is_digit s)"

text \<open>The integer a string of decimal digits denotes.\<close>

definition digits_value :: "js_string \<Rightarrow> int" where
  "digits_value z = foldl (\<lambda>a c. 10 * a + (int c - 48)) 0 z"

text \<open>
  \<open>parseInt(s, 10)\<close>: skip leading white space, read a sign, take the longest prefix of
  digits; without a digit the result is \<open>NaN\<close> (\<open>None\<close>), otherwise the number nearest to
  the signed value (\<open>Infinity\<close>, for a value beyond the double range, is modelled by the
  rounded integer, which the comparisons of \<open>validateId\<close> treat alike).
\<close>

definition parseInt10 :: "js_string \<Rightarrow> int option" where
  "parseInt10 s =
     (let s1 = dropWhile is_white_space s;
          sign = (if s1 \<noteq> [] \<and> hd s1 = 45 then - 1 else 1);
          s2 = (if s1 \<noteq> [] \<and> (hd s1 = 43 \<or> hd s1 = 45) then tl s1 else s1);
          z = takeWhile is_digit s2
      in if z = [] then None else Some (to_number (sign * digits_value z)))"

definition MAX_SAFE_INTEGER :: int where
  "MAX_SAFE_INTEGER = 2 ^ 53 - 1"

text \<open>
  The argument \<open>id: any\<close>: \<open>null\<close>, \<open>undefined\<close>, or any other value, which the function
  reads through \<open>String(id)\<close> only and which is given by that string (a string by
  itself, the number 456 by \<open>456\<close>).
\<close>

datatype js_any = JSNull | JSUndefined | JSValue js_string

text \<open>The result \<^verbatim>\<open>{ isValid: boolean; value?: number }\<close>; an absent \<open>value\<close> is \<open>None\<close>.\<close>

record id_result =
  isValid :: bool
  id_value :: "int option"

definition validateId :: "js_any \<Rightarrow> id_result" where
  "validateId idv =
     (case idv of
        JSNull \<Rightarrow> \<lparr>isValid = False, id_value = None\<rparr>
      | JSUndefined \<Rightarrow> \<lparr>isValid = False, id_value = None\<rparr>
      | JSValue str \<Rightarrow>
          (let idStr = trim str in
           if \<not> digits_only idStr then \<lparr>isValid = False, id_value = None\<rparr>
           else (case parseInt10 idStr of
                   None \<Rightarrow> \<lparr>isValid = False, id_value = None\<rparr>
                 | Some numericId \<Rightarrow>
                     if numericId \<le> 0 \<or> numericId > MAX_SAFE_INTEGER
                     then \<lparr>isValid = False, id_value = None\<rparr>
                     else \<lparr>isValid = True, id_value = Some numericId\<rparr>)))"

text \<open>
  What the specification says of \<open>validateId\<close>: valid exactly when the argument is neither
  \<open>null\<close> nor \<open>undefined\<close> and its trimmed string consists of decimal digits only whose
  value \<open>v\<close> satisfies \<open>0 < v \<le> MAX_SAFE_INTEGER\<close>; then the value returned is \<open>v\<close>, and
  otherwise no value is returned.
\<close>

definition validateId_spec :: "js_any \<Rightarrow> id_result" where
  "validateId_spec idv =
     (case idv of
        JSNull \<Rightarrow> \<lparr>isValid = False, id_value = None\<rparr>
      | JSUndefined \<Rightarrow> \<lparr>isValid = False, id_value = None\<rparr>
      | JSValue str \<Rightarrow>
          (let t = trim str; v = digits_value t in
           if t \<noteq> [] \<and> list_all is_digit t \<and> 0 < v \<and> v \<le> MAX_SAFE_INTEGER
           then \<lparr>isValid = True, id_value = Some v\<rparr>
           else \<lparr>isValid = False, id_value = None\<rparr>))"

section \<open>Problem 6: the token bucket of ADR-007\<close>

text \<open>
  Redis as the code uses it: \<open>GET\<close> and \<open>SETEX\<close> on string keys. A value is stored with
  the time at which it expires; an expired key reads as absent. Times are seconds, as
  real numbers (the rounding of Python floats is not modelled).
\<close>

type_synonym 'v redis = "string \<rightharpoonup> ('v \<times> real)"

definition redis_get :: "'v redis \<Rightarrow> string \<Rightarrow> real \<Rightarrow> 'v option" where
  "redis_get r key now =
     (case r key of
        None \<Rightarrow> None
      | Some (v, expires) \<Rightarrow> if now < expires then Some v else None)"

definition redis_setex :: "'v redis \<Rightarrow> string \<Rightarrow> real \<Rightarrow> 'v \<Rightarrow> real \<Rightarrow> 'v redis" where
  "redis_setex r key ttl v now = r(key \<mapsto> (v, now + ttl))"

text \<open>The JSON object \<^verbatim>\<open>{"tokens": ..., "last_refill": ...}\<close> kept under \<open>bucket:<key>\<close>.\<close>

record bucket =
  tokens :: real
  last_refill :: real

text \<open>The fields of a \<open>TokenBucketRateLimiter\<close>; its Redis client is passed explicitly.\<close>

record TokenBucketRateLimiter =
  bucket_size :: real
  refill_rate :: real

text \<open>
  \<open>is_allowed(self, key, tokens_requested = 1)\<close> at the time \<open>current_time\<close> read from
  \<open>time.time()\<close>. It returns the new Redis state with the pair \<open>(allowed, current_tokens)\<close>.
\<close>

definition is_allowed ::
  "TokenBucketRateLimiter \<Rightarrow> bucket redis \<Rightarrow> string \<Rightarrow> real \<Rightarrow> real
     \<Rightarrow> bucket redis \<times> bool \<times> real" where
  "is_allowed self r key tokens_requested current_time =
     (let bucket_data = redis_get r (''bucket:'' @ key) current_time;
          last_refill0 = (case bucket_data of Some b \<Rightarrow> last_refill b | None \<Rightarrow> current_time);
          current_tokens0 = (case bucket_data of Some b \<Rightarrow> tokens b | None \<Rightarrow> bucket_size self);
          time_elapsed = current_time - last_refill0;
          tokens_to_add = time_elapsed * refill_rate self;
          current_tokens1 = min (bucket_size self) (current_tokens0 + tokens_to_add);
          allowed = (current_tokens1 \<ge> tokens_requested);
          current_tokens2 = (if allowed then current_tokens1 - tokens_requested else current_tokens1);
          r' = redis_setex r (''bucket:'' @ key) 3600
                 \<lparr>tokens = current_tokens2, last_refill = current_time\<rparr> current_time
      in (r', allowed, current_tokens2))"

section \<open>Problem 6: the rate limiting middleware of ADR-007\<close>

text \<open>The exception \<open>RateLimitExceeded(message, retry_after = ...)\<close>.\<close>

datatype RateLimitExceeded = RateLimitExceeded string real

fun retry_after :: "RateLimitExceeded \<Rightarrow> real" where
  "retry_after (RateLimitExceeded message secs) = secs"

text \<open>
  \<open>rate_limit_middleware(request, user_id, action_type)\<close>. The four checks it calls
  (\<open>check_ip_rate_limit\<close>, \<open>check_user_global_rate_limit\<close>, \<open>check_action_rate_limit\<close>,
  \<open>check_minimum_interval\<close>) are not defined in the repository: they are parameters, each
  applied to its arguments already, reading and changing the rate limiting state \<open>'s\<close>
  and answering whether the request may pass. A raise is \<open>Inl\<close>.
\<close>

definition rate_limit_middleware ::
  "('s \<Rightarrow> bool \<times> 's) \<Rightarrow> ('s \<Rightarrow> bool \<times> 's) \<Rightarrow> ('s \<Rightarrow> bool \<times> 's) \<Rightarrow> ('s \<Rightarrow> bool \<times> 's)
     \<Rightarrow> 's \<Rightarrow> (RateLimitExceeded + bool) \<times> 's" where
  "rate_limit_middleware check_ip_rate_limit check_user_global_rate_limit
       check_action_rate_limit check_minimum_interval s0 =
     (let (ok1, s1) = check_ip_rate_limit s0 in
      if \<not> ok1 then (Inl (RateLimitExceeded ''IP rate limit exceeded'' 60), s1)
      else let (ok2, s2) = check_user_global_rate_limit s1 in
      if \<not> ok2 then (Inl (RateLimitExceeded ''User rate limit exceeded'' 60), s2)
      else let (ok3, s3) = check_action_rate_limit s2 in
      if \<not> ok3 then (Inl (RateLimitExceeded ''Action rate limit exceeded'' 30), s3)
      else let (ok4, s4) = check_minimum_interval s3 in
      if \<not> ok4 then (Inl (RateLimitExceeded ''Too frequent actions'' 3), s4)
      else (Inr True, s4))"

text \<open>
  Modelled from the spec: the checks of the middleware are missing from the repository.
  The specification (4.2) makes every layer a token bucket of its own, asked for one
  token: \<open>bucket_check\<close> is such a layer, on the limiter and key of the layer.
\<close>

definition bucket_check ::
  "TokenBucketRateLimiter \<Rightarrow> string \<Rightarrow> real \<Rightarrow> bucket redis \<Rightarrow> bool \<times> bucket redis" where
  "bucket_check limiter key now r =
     (case is_allowed limiter r key 1 now of (r', allowed, current_tokens) \<Rightarrow> (allowed, r'))"

text \<open>
  What the specification says of the \<open>retryAfter\<close> of a denied request: the longest of
  \<open>(1 - availableTokens) / refillRate\<close> over the failing layers, each given by its
  available tokens after the refill and its refill rate.
\<close>

definition spec_retry_after :: "(real \<times> real) list \<Rightarrow> real" where
  "spec_retry_after failing =
     Max (set (map (\<lambda>(availableTokens, refillRate). (1 - availableTokens) / refillRate) failing))"

section \<open>Problem 6: the tables of ADR-006 and the leaderboard queries\<close>

text \<open>
  A row of \<open>users\<close>, with the columns the queries read: \<open>id\<close> (the primary key, here
  \<open>uid\<close>), \<open>username\<close>, \<open>score\<close> and the nullable \<open>is_active\<close>. A table is the list of its
  rows.
\<close>

record user_row =
  uid :: int
  username :: string
  score :: int
  is_active :: "bool option"

text \<open>\<^verbatim>\<open>WHERE is_active = true\<close>: a row whose \<open>is_active\<close> is false or null is left out.\<close>

definition active_users :: "user_row list \<Rightarrow> user_row list" where
  "active_users users = filter (\<lambda>u. is_active u = Some True) users"

text \<open>\<^verbatim>\<open>ORDER BY score DESC, id ASC\<close>, as the ascending order of the pair \<open>(- score, id)\<close>.\<close>

definition rank_key :: "user_row \<Rightarrow> int \<times> int" where
  "rank_key u = (- score u, uid u)"

text \<open>
  The rows of the common table expression \<open>user_rank\<close>, and of the leaderboard query before
  its \<open>LIMIT\<close>: the active users in order, each with its
  \<^verbatim>\<open>ROW_NUMBER() OVER (ORDER BY score DESC, id ASC)\<close>.
\<close>

definition ranked_users :: "user_row list \<Rightarrow> (user_row \<times> nat) list" where
  "ranked_users users =
     (let rows = sort_key rank_key (active_users users)
      in zip rows [1 ..< Suc (length rows)])"

text \<open>The optimized leaderboard query: the ranked rows, \<^verbatim>\<open>LIMIT 10\<close>.\<close>

definition leaderboard_query :: "user_row list \<Rightarrow> (user_row \<times> nat) list" where
  "leaderboard_query users = take 10 (ranked_users users)"

text \<open>\<^verbatim>\<open>SELECT rank FROM user_rank WHERE id = $1\<close>: the ranks of the rows selected.\<close>

definition user_rank_query :: "user_row list \<Rightarrow> int \<Rightarrow> nat list" where
  "user_rank_query users i = map snd (filter (\<lambda>(u, rank). uid u = i) (ranked_users users))"

text \<open>
  \<^verbatim>\<open>SELECT * FROM users ORDER BY score DESC\<close>, the query of the flow diagram (steps 18
  and 46) before its \<open>TOP 10\<close>: every row of the table, active or not, by descending
  score. The query fixes no order among rows of equal score; they come in the order in
  which the table holds them, which is any order.
\<close>

definition users_by_score :: "user_row list \<Rightarrow> user_row list" where
  "users_by_score users = sort_key (\<lambda>u. - score u) users"



section \<open>Problem 6: the score update transaction\<close>

text \<open>
  A row of \<open>score_history\<close> as the transaction inserts it:
  \<^verbatim>\<open>INSERT INTO score_history (user_id, action, points, timestamp)\<close>.
\<close>

record score_history_row =
  hist_user_id :: int
  hist_action_type :: string
  hist_points_added :: int
  hist_timestamp :: real

text \<open>
  The database: the tables \<open>users\<close>, \<open>score_history\<close>, \<open>action_nonces\<close> (rows
  \<open>(user_id, nonce)\<close>) and \<open>security_incidents\<close> (rows \<open>(user_id, incident_type)\<close>).
\<close>

record database =
  db_users :: "user_row list"
  db_score_history :: "score_history_row list"
  db_action_nonces :: "(int \<times> string) list"
  db_security_incidents :: "(int \<times> string) list"

text \<open>The SQL type \<open>INTEGER\<close> of \<open>score\<close> and \<open>points_added\<close>: 32 bits, signed.\<close>

definition in_integer_range :: "int \<Rightarrow> bool" where
  "in_integer_range x = (- (2 ^ 31) \<le> x \<and> x < 2 ^ 31)"

datatype db_error = IntegerOutOfRange | ForeignKeyViolation | OptimisticLockConflict

text \<open>
  One attempt of the transaction of phase 6 for the user \<open>att_user\<close> and the increment
  \<open>att_points\<close>. \<open>att_conflict\<close> says whether the database reports an optimistic locking
  conflict to this attempt (the flow "Concurrent Score Updates"); the server then tries
  again, which is a further attempt.
\<close>

record attempt =
  att_user :: int
  att_points :: int
  att_action :: string
  att_time :: real
  att_conflict :: bool

definition history_row :: "attempt \<Rightarrow> score_history_row" where
  "history_row a =
     \<lparr>hist_user_id = att_user a, hist_action_type = att_action a,
      hist_points_added = att_points a, hist_timestamp = att_time a\<rparr>"

text \<open>
  \<^verbatim>\<open>BEGIN TRANSACTION;
  UPDATE users SET score = score + ? WHERE id = ?;
  INSERT INTO score_history (user_id, action, points, timestamp) ...;
  COMMIT TRANSACTION\<close>, returning the new score value. An error (\<open>Inl\<close>) rolls the
  transaction back: the database stays as it was. The update fails when a sum leaves
  \<open>INTEGER\<close>; the insert fails when \<open>user_id\<close> references no row of \<open>users\<close>. The
  transaction is atomic and isolated, so it is one step on the database.
\<close>

definition score_update_transaction ::
  "database \<Rightarrow> attempt \<Rightarrow> db_error + (database \<times> int)" where
  "score_update_transaction db a =
     (if att_conflict a then Inl OptimisticLockConflict
      else if \<not> in_integer_range (att_points a) then Inl IntegerOutOfRange
      else if list_ex (\<lambda>u. uid u = att_user a \<and> \<not> in_integer_range (score u + att_points a))
                (db_users db)
      then Inl IntegerOutOfRange
      else
        (let users' = map (\<lambda>u. if uid u = att_user a
                                then u\<lparr>score := score u + att_points a\<rparr> else u) (db_users db)
         in case find (\<lambda>u. uid u = att_user a) users' of
              None \<Rightarrow> Inl ForeignKeyViolation
            | Some u \<Rightarrow>
                Inr (db\<lparr>db_users := users',
                        db_score_history := db_score_history db @ [history_row a]\<rparr>,
                     score u)))"

text \<open>
  A sequence of attempts, in the order in which the database serializes them; each
  answers an error or the new score.
\<close>

fun apply_all :: "database \<Rightarrow> attempt list \<Rightarrow> database \<times> (db_error + int) list" where
  "apply_all db [] = (db, [])"
| "apply_all db (a # as) =
     (case score_update_transaction db a of
        Inl e \<Rightarrow> (case apply_all db as of (db', rs) \<Rightarrow> (db', Inl e # rs))
      | Inr (db1, s) \<Rightarrow> (case apply_all db1 as of (db', rs) \<Rightarrow> (db', Inr s # rs)))"

text \<open>The attempts that returned success, and the current score of an identity.\<close>

definition accepted :: "attempt list \<Rightarrow> (db_error + int) list \<Rightarrow> attempt list" where
  "accepted as rs = map fst (filter (\<lambda>(a, r). \<not> isl r) (zip as rs))"

definition current_score :: "database \<Rightarrow> int \<Rightarrow> int option" where
  "current_score db i = map_option score (find (\<lambda>u. uid u = i) (db_users db))"

text \<open>The sum of the deltas of the history rows of one identity.\<close>

definition deltas_of :: "int \<Rightarrow> score_history_row list \<Rightarrow> int" where
  "deltas_of i rows = sum_list (map hist_points_added (filter (\<lambda>h. hist_user_id h = i) rows))"

section \<open>Problem 6: the action proof validation of ADR-005\<close>

text \<open>The action proof of a request, with the user it is submitted for.\<close>

record action_proof =
  proof_user_id :: int
  proof_action_type :: string
  proof_timestamp :: real
  proof_action_data :: string
  proof_signature :: string
  proof_expected_points :: int
  proof_nonce :: string

text \<open>The exception \<open>InvalidActionError(message)\<close>.\<close>

datatype InvalidActionError = InvalidActionError string

text \<open>
  Modelled from the spec: \<open>is_timestamp_fresh\<close> is missing from the repository, which
  only calls it with \<open>max_age = 30\<close>. The specification (4.1) rejects a proof if
  \<open>|now - proof.timestamp| > maxSkew\<close>; a timestamp is fresh otherwise.
\<close>

definition is_timestamp_fresh :: "real \<Rightarrow> real \<Rightarrow> real \<Rightarrow> bool" where
  "is_timestamp_fresh timestamp max_age now = (\<bar>now - timestamp\<bar> \<le> max_age)"

text \<open>\<open>secure_compare\<close>: equality of the two signatures, in constant time.\<close>

definition secure_compare :: "string \<Rightarrow> string \<Rightarrow> bool" where
  "secure_compare a b = (a = b)"

text \<open>
  Modelled from the spec: \<open>is_nonce_used\<close> is missing from the repository. The
  specification (4.1) checks \<open>(identity, nonce)\<close> against the recently seen set, which
  ADR-006 keeps in the table \<open>action_nonces\<close>.
\<close>

definition is_nonce_used :: "string \<Rightarrow> int \<Rightarrow> database \<Rightarrow> bool" where
  "is_nonce_used nonce user_id db = ((user_id, nonce) \<in> set (db_action_nonces db))"

text \<open>
  \<open>validate_action_proof(proof, user_secret)\<close> at the server time \<open>now\<close>, reading the
  database \<open>db\<close>. \<open>generate_hmac\<close> and \<open>validate_action_data\<close> are not defined in the
  repository and are parameters; \<open>validate_action_data\<close> answers whether it returns
  (rather than raises). The function writes nothing: its only effect is its result, a
  raise (\<open>Inl\<close>) or \<open>True\<close>.
\<close>

definition validate_action_proof ::
  "(action_proof \<Rightarrow> string \<Rightarrow> string) \<Rightarrow> (string \<Rightarrow> string \<Rightarrow> bool) \<Rightarrow> real \<Rightarrow> database
     \<Rightarrow> action_proof \<Rightarrow> string \<Rightarrow> InvalidActionError + bool" where
  "validate_action_proof generate_hmac validate_action_data now db pf user_secret =
     (if \<not> is_timestamp_fresh (proof_timestamp pf) 30 now
      then Inl (InvalidActionError ''Timestamp too old'')
      else if \<not> secure_compare (proof_signature pf) (generate_hmac pf user_secret)
      then Inl (InvalidActionError ''Invalid signature'')
      else if is_nonce_used (proof_nonce pf) (proof_user_id pf) db
      then Inl (InvalidActionError ''Nonce already used'')
      else if \<not> validate_action_data (proof_action_type pf) (proof_action_data pf)
      then Inl (InvalidActionError ''Invalid action data'')
      else Inr True)"

section \<open>Problem 6: the leaderboard cache\<close>

text \<open>
  What the cache holds under the key \<open>top_10_scores\<close>, and a broadcast carries as
  \<open>top_10\<close>: the rows the flow diagram selects. The code stores the rows only.
  \<open>snap_generation\<close> is kept beside them to speak of the age of a snapshot: it counts the
  score updates committed when the rows were selected.
\<close>

record snapshot =
  snap_rows :: "user_row list"
  snap_generation :: nat

text \<open>\<^verbatim>\<open>SELECT TOP 10 * FROM users ORDER BY score DESC\<close> (steps 18 and 46).\<close>

definition select_top_10 :: "database \<Rightarrow> snapshot" where
  "select_top_10 db =
     \<lparr>snap_rows = take 10 (users_by_score (db_users db)),
      snap_generation = length (db_score_history db)\<rparr>"

text \<open>
  \<^verbatim>\<open>GET "top_10_scores"\<close>, \<^verbatim>\<open>DELETE "top_10_scores"\<close> and
  \<^verbatim>\<open>SET "top_10_scores" (TTL: 60 seconds)\<close>.
\<close>

definition cache_get :: "snapshot redis \<Rightarrow> real \<Rightarrow> snapshot option" where
  "cache_get cache now = redis_get cache ''top_10_scores'' now"

definition cache_delete :: "snapshot redis \<Rightarrow> snapshot redis" where
  "cache_delete cache = cache(''top_10_scores'' := None)"

definition cache_set :: "snapshot redis \<Rightarrow> snapshot \<Rightarrow> real \<Rightarrow> snapshot redis" where
  "cache_set cache snap now = redis_setex cache ''top_10_scores'' 60 snap now"

text \<open>
  The writes of a sequence of refreshes, in the order in which Redis receives them: each
  \<open>SET\<close> carries the snapshot a refresh selected earlier and the time of the write.
\<close>

fun cache_sets :: "snapshot redis \<Rightarrow> (snapshot \<times> real) list \<Rightarrow> snapshot redis" where
  "cache_sets cache [] = cache"
| "cache_sets cache ((snap, now) # writes) = cache_sets (cache_set cache snap now) writes"

section \<open>Problem 6: the score update request\<close>

text \<open>The responses of \<^verbatim>\<open>POST /api/score/update\<close> in the flow diagram.\<close>

datatype http_response =
    HTTP_200 int "nat list"
  | HTTP_400
  | HTTP_401
  | HTTP_403
  | HTTP_409
  | HTTP_422
  | HTTP_429 real
  | HTTP_500

text \<open>
  The event of \<^verbatim>\<open>POST /broadcast/score-update\<close>:
  \<^verbatim>\<open>{type: "score_update", top_10: [...], updated_user: {id, username, score}}\<close>.
\<close>

record score_update_event =
  ev_top_10 :: "user_row list"
  ev_updated_user :: "user_row list"

text \<open>
  The state a request acts on: the database, the Redis cache, the events handed to the
  WebSocket server, and the log of operational telemetry.
\<close>

record server_state =
  st_db :: database
  st_cache :: "snapshot redis"
  st_broadcasts :: "score_update_event list"
  st_telemetry :: "string list"

text \<open>
  What a request meets outside the server: the time, the answer of the Auth Service
  (the user id of a valid token), the outcome of the rate limiting middleware, the
  secret of the user, for each attempt of the transaction the server is prepared to make
  whether the database reports a conflict to it, and whether Redis and the WebSocket
  server can be reached.
\<close>

record request_env =
  env_now :: real
  env_auth :: "int option"
  env_rate_limit :: "RateLimitExceeded + bool"
  env_user_secret :: string
  env_conflicts :: "bool list"
  env_cache_ok :: bool
  env_broadcast_ok :: bool

text \<open>
  The flow "Concurrent Score Updates": on an optimistic locking conflict the server
  retries the transaction on the current data, while it has attempts left.
\<close>

fun run_transaction ::
  "database \<Rightarrow> attempt \<Rightarrow> bool list \<Rightarrow> db_error + (database \<times> int)" where
  "run_transaction db a [] = Inl OptimisticLockConflict"
| "run_transaction db a (c # cs) =
     (case score_update_transaction db (a\<lparr>att_conflict := c\<rparr>) of
        Inl OptimisticLockConflict \<Rightarrow> run_transaction db a cs
      | Inl e \<Rightarrow> Inl e
      | Inr committed \<Rightarrow> Inr committed)"

text \<open>
  Modelled from the spec: the repository gives no flow for a cache refresh or a
  broadcast that fails. The specification (4.6, 7) has such a failure logged as
  \<open>DownstreamUnavailable\<close> and retried in the background, outside the request, which goes
  on.
\<close>

definition downstream_unavailable :: "server_state \<Rightarrow> server_state" where
  "downstream_unavailable st = st\<lparr>st_telemetry := st_telemetry st @ [''DownstreamUnavailable'']\<rparr>"

text \<open>Phase 7, steps 45 to 48: delete the cache entry, select the top 10, set the entry.\<close>

definition refresh_cache :: "request_env \<Rightarrow> server_state \<Rightarrow> server_state" where
  "refresh_cache env st =
     (if env_cache_ok env
      then st\<lparr>st_cache := cache_set (cache_delete (st_cache st)) (select_top_10 (st_db st))
                              (env_now env)\<rparr>
      else downstream_unavailable st)"

text \<open>
  Phase 9, step 51: hand the event to the WebSocket server, with the top 10 that phase 7
  selected.
\<close>

definition broadcast :: "request_env \<Rightarrow> int \<Rightarrow> server_state \<Rightarrow> server_state" where
  "broadcast env user_id st =
     (if env_broadcast_ok env
      then st\<lparr>st_broadcasts := st_broadcasts st @
                 [\<lparr>ev_top_10 = snap_rows (select_top_10 (st_db st)),
                   ev_updated_user = filter (\<lambda>u. uid u = user_id) (db_users (st_db st))\<rparr>]\<rparr>
      else downstream_unavailable st)"

text \<open>\<^verbatim>\<open>LOG security_incidents (user_id, action, timestamp)\<close>.\<close>

definition log_incident :: "int \<Rightarrow> string \<Rightarrow> server_state \<Rightarrow> server_state" where
  "log_incident user_id incident st =
     st\<lparr>st_db := (st_db st)\<lparr>db_security_incidents :=
                      db_security_incidents (st_db st) @ [(user_id, incident)]\<rparr>\<rparr>"

text \<open>
  The attempt of the transaction a request makes: for the authenticated user, the points
  and the action type of the proof, with the timestamp of the action.
\<close>

definition request_attempt :: "int \<Rightarrow> action_proof \<Rightarrow> attempt" where
  "request_attempt user_id pf =
     \<lparr>att_user = user_id, att_points = proof_expected_points pf,
      att_action = proof_action_type pf, att_time = proof_timestamp pf,
      att_conflict = False\<rparr>"

text \<open>
  The flow "Replay Attack Detected" of the diagram:
  \<^verbatim>\<open>CHECK action_history for duplicate\<close>, "Duplicate action found". The history of
  actions is the table \<open>score_history\<close>, which phase 6 fills; an action is found there when
  the row the transaction inserts for it is there already.
\<close>

definition duplicate_action :: "database \<Rightarrow> attempt \<Rightarrow> bool" where
  "duplicate_action db a = (history_row a \<in> set (db_score_history db))"

text \<open>
  Phase 5 of the flow diagram for one \<^verbatim>\<open>POST /api/score/update\<close>, with its error flows:
  an invalid token (401); a failed validation of the action proof (400, and 403, 409 or
  422 for an invalid signature, a used nonce or invalid action data); an exceeded rate
  limit (429); a duplicate action (409). An answered request is \<open>Inl\<close>, with the response
  and the state; a request that passed is \<open>Inr\<close>, with its user. The checks follow the
  order of the note at step 35 (freshness and signature, rate limiting, no duplicate
  actions); the reading of the permissions in steps 36 to 38 has no failure flow and is
  left out.
\<close>

definition validate_request ::
  "(action_proof \<Rightarrow> string \<Rightarrow> string) \<Rightarrow> (string \<Rightarrow> string \<Rightarrow> bool) \<Rightarrow> request_env
     \<Rightarrow> server_state \<Rightarrow> action_proof \<Rightarrow> (http_response \<times> server_state) + int" where
  "validate_request generate_hmac validate_action_data env st pf =
     (case env_auth env of
        None \<Rightarrow> Inl (HTTP_401, st)
      | Some user_id \<Rightarrow>
          (case validate_action_proof generate_hmac validate_action_data (env_now env)
                  (st_db st) pf (env_user_secret env) of
             Inl (InvalidActionError message) \<Rightarrow>
               if message = ''Invalid signature''
               then Inl (HTTP_403, log_incident user_id ''invalid_signature'' st)
               else if message = ''Nonce already used'' then Inl (HTTP_409, st)
               else if message = ''Invalid action data''
               then Inl (HTTP_422, log_incident user_id ''suspicious_activity'' st)
               else Inl (HTTP_400, st)
           | Inr valid \<Rightarrow>
               (case env_rate_limit env of
                  Inl e \<Rightarrow> Inl (HTTP_429 (retry_after e), st)
                | Inr allowed \<Rightarrow>
                    if duplicate_action (st_db st) (request_attempt user_id pf)
                    then Inl (HTTP_409, st)
                    else Inr user_id)))"

text \<open>
  Phases 6 to 9 for a request that passed phase 5: the transaction (500 when it fails),
  the cache refresh, the response and the broadcast.
\<close>

definition apply_request ::
  "request_env \<Rightarrow> int \<Rightarrow> action_proof \<Rightarrow> server_state \<Rightarrow> http_response \<times> server_state" where
  "apply_request env user_id pf st =
     (case run_transaction (st_db st) (request_attempt user_id pf) (env_conflicts env) of
        Inl e \<Rightarrow> (HTTP_500, st)
      | Inr (db', new_score) \<Rightarrow>
          (let st1 = st\<lparr>st_db := db'\<rparr>;
               st2 = refresh_cache env st1;
               response = HTTP_200 new_score (user_rank_query (db_users db') user_id);
               st3 = broadcast env user_id st2
           in (response, st3)))"

text \<open>
  A request handled alone: phase 5, then phases 6 to 9 on the same state. Requests
  handled at the same time interleave their phases.
\<close>

definition handle_score_update ::
  "(action_proof \<Rightarrow> string \<Rightarrow> string) \<Rightarrow> (string \<Rightarrow> string \<Rightarrow> bool) \<Rightarrow> request_env
     \<Rightarrow> server_state \<Rightarrow> action_proof \<Rightarrow> http_response \<times> server_state" where
  "handle_score_update generate_hmac validate_action_data env st pf =
     (case validate_request generate_hmac validate_action_data env st pf of
        Inl answered \<Rightarrow> answered
      | Inr user_id \<Rightarrow> apply_request env user_id pf st)"

section \<open>Problem 6: a worked request\<close>

text \<open>
  The scenario of the specification: an identity of score 100 submits a proof for
  \<open>puzzle_complete\<close> worth 50 points with the nonce \<open>n1\<close>, signed correctly, at the server
  time 1000. \<open>demo_hmac\<close> stands for the HMAC of the deployment.
\<close>

definition demo_hmac :: "action_proof \<Rightarrow> string \<Rightarrow> string" where
  "demo_hmac pf user_secret = user_secret @ '':'' @ proof_nonce pf"

definition demo_valid :: "string \<Rightarrow> string \<Rightarrow> bool" where
  "demo_valid action_type action_data = (action_type = ''puzzle_complete'')"

definition demo_proof :: action_proof where
  "demo_proof =
     \<lparr>proof_user_id = 1, proof_action_type = ''puzzle_complete'', proof_timestamp = 1000,
      proof_action_data = ''{}'', proof_signature = ''secret:n1'',
      proof_expected_points = 50, proof_nonce = ''n1''\<rparr>"

definition demo_state :: server_state where
  "demo_state =
     \<lparr>st_db = \<lparr>db_users = [\<lparr>uid = 1, username = ''a'', score = 100, is_active = Some True\<rparr>],
               db_score_history = [], db_action_nonces = [], db_security_incidents = []\<rparr>,
      st_cache = Map.empty, st_broadcasts = [], st_telemetry = []\<rparr>"

definition demo_env :: request_env where
  "demo_env =
     \<lparr>env_now = 1000, env_auth = Some 1, env_rate_limit = Inr True,
      env_user_secret = ''secret'', env_conflicts = [False],
      env_cache_ok = True, env_broadcast_ok = True\<rparr>"

chapter \<open>Properties\<close>

section \<open>Rounding to a double\<close>

lemma ulp_of_small: "m < 2 ^ 53 \<Longrightarrow> ulp_of m = 1"
  by (subst ulp_of.simps) simp

lemma ulp_of_next: "2 ^ 53 \<le> m \<Longrightarrow> m < 2 ^ 54 \<Longrightarrow> ulp_of m = 2"
  by (subst ulp_of.simps) (simp add: ulp_of_small)

lemma round_even_small: "m < 2 ^ 53 \<Longrightarrow> round_even m = m"
  by (simp add: round_even_def ulp_of_small)

lemma round_even_even: "even m \<Longrightarrow> m < 2 ^ 54 \<Longrightarrow> round_even m = m"
proof (cases "m < 2 ^ 53")
  case True
  then show ?thesis by (rule round_even_small)
next
  case False
  assume "even m" "m < 2 ^ 54"
  with False have "ulp_of m = 2" by (simp add: ulp_of_next)
  with \<open>even m\<close> show ?thesis by (auto simp add: round_even_def Let_def)
qed

lemma to_number_small: "0 \<le> x \<Longrightarrow> x < 2 ^ 53 \<Longrightarrow> to_number x = x"
  by (simp add: to_number_def round_even_small)

lemma to_number_even: "0 \<le> x \<Longrightarrow> even x \<Longrightarrow> x < 2 ^ 54 \<Longrightarrow> to_number x = x"
  by (simp add: to_number_def round_even_even)

section \<open>Problem 4: the three sums\<close>

lemma tri_bound:
  assumes "0 \<le> i" "i < 134217728"
  shows "i * (i + 1) < (2::int) ^ 54"
proof -
  have "i * (i + 1) \<le> 134217727 * 134217728"
    using assms by (intro mult_mono) auto
  then show ?thesis by simp
qed

text \<open>Every partial sum up to \<open>n = 2 ^ 27\<close> is a double.\<close>

lemma tri_exact:
  assumes "0 \<le> i" "i \<le> 134217728"
  shows "to_number (i * (i + 1) div 2) = i * (i + 1) div 2"
proof (cases "i = 134217728")
  case True
  have "ulp_of 9007199321849856 = 2" by (rule ulp_of_next) simp_all
  then show ?thesis using True by (simp add: to_number_def round_even_def)
next
  case False
  with assms have "i * (i + 1) < 2 ^ 54" by (intro tri_bound) auto
  then have "i * (i + 1) div 2 < 2 ^ 53" by simp
  moreover have "0 \<le> i * (i + 1) div 2" using assms by simp
  ultimately show ?thesis by (rule to_number_small[rotated])
qed

lemma prod_exact:
  assumes "0 \<le> n" "n \<le> 134217728"
  shows "to_number (n * (n + 1)) = n * (n + 1)"
proof (cases "n = 134217728")
  case True
  have "ulp_of 18014398643699712 = 4"
    by (subst ulp_of.simps, simp, subst ulp_of.simps, simp, subst ulp_of.simps, simp)
  then show ?thesis using True by (simp add: to_number_def round_even_def)
next
  case False
  with assms have "n * (n + 1) < 2 ^ 54" by (intro tri_bound) auto
  moreover have "even (n * (n + 1))" by simp
  moreover have "0 \<le> n * (n + 1)" using assms by simp
  ultimately show ?thesis by (simp add: to_number_even)
qed

lemma sum_to_n_b_exact:
  assumes "0 \<le> n" "n \<le> 134217728"
  shows "sum_to_n_b n = n * (n + 1) div 2"
proof -
  have "to_number (n + 1) = n + 1" using assms by (intro to_number_small) auto
  then show ?thesis using assms by (simp add: sum_to_n_b_def prod_exact)
qed

lemma tri_step: "(i - 1) * i div 2 + i = i * (i + 1) div (2::int)"
proof -
  have "i * (i + 1) = (i - 1) * i + i * 2" by (simp add: algebra_simps)
  then show ?thesis by simp
qed

text \<open>
  The loop invariant of \<open>sum_to_n_a\<close>: entering the iteration for \<open>i\<close>, the sum holds
  \<open>1 + ... + (i - 1)\<close>. It is kept exactly for the first \<open>2 ^ 27\<close> iterations, whatever
  \<open>n\<close> is.
\<close>

lemma sum_to_n_a_loop_prefix:
  assumes "1 \<le> i" "i \<le> j" "j \<le> n + 1" "j \<le> 134217729"
  shows "sum_to_n_a_loop n i ((i - 1) * i div 2) = sum_to_n_a_loop n j ((j - 1) * j div 2)"
  using assms
proof (induction "nat (j - i)" arbitrary: i)
  case 0
  then have "i = j" by simp
  then show ?case by simp
next
  case (Suc k)
  then have le: "i \<le> n" "i \<le> 134217728" by simp_all
  have i1: "to_number (i + 1) = i + 1" using Suc.prems le by (intro to_number_small) auto
  have sm: "to_number ((i - 1) * i div 2 + i) = i * (i + 1) div 2"
    using Suc.prems le by (simp add: tri_step tri_exact)
  have "sum_to_n_a_loop n (i + 1) ((i + 1 - 1) * (i + 1) div 2)
      = sum_to_n_a_loop n j ((j - 1) * j div 2)"
    using Suc by (intro Suc.hyps(1)) auto
  then have "sum_to_n_a_loop n (i + 1) (i * (i + 1) div 2)
      = sum_to_n_a_loop n j ((j - 1) * j div 2)"
    by simp
  then show ?case using le i1 sm
    by (subst sum_to_n_a_loop.simps) simp
qed

lemma sum_to_n_a_exact:
  assumes "0 \<le> n" "n \<le> 134217728"
  shows "sum_to_n_a n = Some (n * (n + 1) div 2)"
proof -
  have "sum_to_n_a n = sum_to_n_a_loop n (n + 1) ((n + 1 - 1) * (n + 1) div 2)"
    using sum_to_n_a_loop_prefix[of 1 "n + 1" n] assms by (simp add: sum_to_n_a_def)
  also have "\<dots> = Some (n * (n + 1) div 2)"
    by (subst sum_to_n_a_loop.simps) simp
  finally show ?thesis .
qed

lemma sum_to_n_c_exact:
  assumes "0 \<le> n" "n \<le> 134217728" "n \<le> int room"
  shows "sum_to_n_c room n = Inr (n * (n + 1) div 2)"
  using assms
proof (induction room arbitrary: n)
  case 0
  then show ?case by simp
next
  case (Suc room)
  show ?case
  proof (cases "n \<le> 0")
    case True
    then show ?thesis using Suc.prems by simp
  next
    case False
    then have pos: "0 < n" by simp
    have p: "to_number (n - 1) = n - 1" using Suc.prems pos by (intro to_number_small) auto
    have "sum_to_n_c room (n - 1) = Inr ((n - 1) * (n - 1 + 1) div 2)"
      using Suc.prems pos by (intro Suc.IH) auto
    then have r: "sum_to_n_c room (n - 1) = Inr ((n - 1) * n div 2)" by simp
    have "to_number (n + (n - 1) * n div 2) = n * (n + 1) div 2"
      using Suc.prems tri_step[of n] tri_exact[of n] by (simp add: add.commute)
    then show ?thesis using pos p r by simp
  qed
qed

text \<open>A recursion deeper than the room on the stack throws.\<close>

lemma sum_to_n_c_overflow:
  assumes "int room < n" "n \<le> 134217728"
  shows "sum_to_n_c room n = Inl RangeError"
  using assms
proof (induction room arbitrary: n)
  case 0
  then show ?case by simp
next
  case (Suc room)
  then have pos: "0 < n" by simp
  have p: "to_number (n - 1) = n - 1" using Suc.prems pos by (intro to_number_small) auto
  have "sum_to_n_c room (n - 1) = Inl RangeError"
    using Suc.prems by (intro Suc.IH) auto
  then show ?case using pos p by simp
qed

lemma sum_to_n_a_neg: "n < 0 \<Longrightarrow> sum_to_n_a n = Some 0"
  unfolding sum_to_n_a_def by (subst sum_to_n_a_loop.simps) simp

lemma sum_to_n_c_neg: "n < 0 \<Longrightarrow> sum_to_n_c room n = Inr 0"
  by (cases room) simp_all

text \<open>
  C9 (as stated, for every integer \<open>n \<ge> 0\<close>) fails twice. At \<open>n = 2 ^ 27 + 2 = 134217730\<close>
  the loop returns 9007199590285314, the formula returns 9007199590285316, and the exact
  value of \<open>n * (n + 1) / 2\<close> is 9007199590285315, which is not a double. And at
  \<open>n = 200000\<close>, the size the repository warns of, the recursion on a stack with room for
  10000 nested calls throws \<open>RangeError\<close> where the formula returns 20000100000.
\<close>

theorem sum_to_n_counterexample:
  "sum_to_n_a 134217730 = Some 9007199590285314 \<and>
   sum_to_n_b 134217730 = 9007199590285316 \<and>
   134217730 * (134217730 + 1) div 2 = (9007199590285315 :: int) \<and>
   sum_to_n_c 10000 200000 = Inl RangeError \<and>
   sum_to_n_b 200000 = 20000100000"
proof -
  have u2: "ulp_of 9007199456067585 = 2" "ulp_of 9007199590285314 = 2"
    by (rule ulp_of_next; simp)+
  have u4: "ulp_of 18014399180570630 = 4"
    by (subst ulp_of.simps, simp, subst ulp_of.simps, simp, subst ulp_of.simps, simp)
  have i1: "to_number 134217730 = 134217730" "to_number 134217731 = 134217731"
    by (rule to_number_small; simp)+
  have s1: "to_number 9007199456067585 = 9007199456067584"
    using u2 by (simp add: to_number_def round_even_def)
  have s2: "to_number 9007199590285314 = 9007199590285314"
    using u2 by (simp add: to_number_def round_even_def)
  have "sum_to_n_a 134217730 = sum_to_n_a_loop 134217730 134217729 9007199321849856"
    using sum_to_n_a_loop_prefix[of 1 134217729 134217730] by (simp add: sum_to_n_a_def)
  also have "\<dots> = sum_to_n_a_loop 134217730 134217730 9007199456067584"
    by (subst sum_to_n_a_loop.simps) (simp add: i1 s1)
  also have "\<dots> = sum_to_n_a_loop 134217730 134217731 9007199590285314"
    by (subst sum_to_n_a_loop.simps) (simp add: i1 s2)
  also have "\<dots> = Some 9007199590285314"
    by (subst sum_to_n_a_loop.simps) simp
  finally have a: "sum_to_n_a 134217730 = Some 9007199590285314" .
  have "to_number 18014399180570630 = 18014399180570632"
    using u4 by (simp add: to_number_def round_even_def)
  then have b: "sum_to_n_b 134217730 = 9007199590285316"
    by (simp add: sum_to_n_b_def i1)
  have c: "sum_to_n_c 10000 200000 = Inl RangeError"
    by (rule sum_to_n_c_overflow) simp_all
  have b2: "sum_to_n_b 200000 = 20000100000"
    using sum_to_n_b_exact[of 200000] by simp
  show ?thesis using a b c b2 by simp
qed

text \<open>
  C9 (amended): for every integer \<open>n\<close> with \<open>0 \<le> n \<le> 2 ^ 27\<close> the loop and the formula
  return the closed form \<open>n * (n + 1) / 2\<close>, and so does the recursion when the call stack
  has room for its \<open>n\<close> nested calls; when it has not, the recursion throws \<open>RangeError\<close>.
  For every \<open>n < 0\<close> the loop and the recursion return 0.
\<close>

theorem sum_to_n_agree:
  "(0 \<le> n \<and> n \<le> 2 ^ 27 \<longrightarrow>
      sum_to_n_a n = Some (n * (n + 1) div 2) \<and>
      sum_to_n_b n = n * (n + 1) div 2 \<and>
      sum_to_n_c room n = (if n \<le> int room then Inr (n * (n + 1) div 2) else Inl RangeError)) \<and>
   (n < 0 \<longrightarrow> sum_to_n_a n = Some 0 \<and> sum_to_n_c room n = Inr 0)"
  by (simp add: sum_to_n_a_exact sum_to_n_b_exact sum_to_n_c_exact sum_to_n_c_overflow
      sum_to_n_a_neg sum_to_n_c_neg)

theorem sum_to_n_agree_witness:
  "sum_to_n_a 10000 = Some 50005000 \<and> sum_to_n_b 10000 = 50005000 \<and>
   sum_to_n_c 100 100 = Inr 5050 \<and> sum_to_n_c 99 100 = Inl RangeError \<and>
   sum_to_n_a (- 3) = Some 0 \<and> sum_to_n_c 100 (- 3) = Inr 0"
  using sum_to_n_agree[of 10000 100] sum_to_n_agree[of 100 100] sum_to_n_agree[of 100 99]
    sum_to_n_agree[of "- 3" 100]
  by simp

section \<open>Problem 5: \<open>validateId\<close>\<close>

lemma ulp_of_pos: "0 < ulp_of m"
  by (induction m rule: ulp_of.induct) (subst ulp_of.simps, simp)

lemma ulp_of_le: "2 ^ 53 \<le> m \<Longrightarrow> ulp_of m * 2 ^ 52 \<le> m"
proof (induction m rule: ulp_of.induct)
  case (1 m)
  show ?case
  proof (cases "m div 2 < 2 ^ 53")
    case True
    then have "ulp_of (m div 2) = 1" by (rule ulp_of_small)
    then have "ulp_of m = 2" using "1.prems" by (subst ulp_of.simps) simp
    then show ?thesis using "1.prems" by simp
  next
    case False
    then have "ulp_of (m div 2) * 2 ^ 52 \<le> m div 2" using 1 by simp
    moreover have "ulp_of m = 2 * ulp_of (m div 2)" using "1.prems" by (subst ulp_of.simps) simp
    ultimately show ?thesis by simp
  qed
qed

lemma ulp_of_ge2: "2 ^ 53 \<le> m \<Longrightarrow> 2 \<le> ulp_of m"
  using ulp_of_pos[of "m div 2"] by (subst ulp_of.simps) simp

lemma round_even_large:
  assumes "2 ^ 53 \<le> m"
  shows "2 ^ 53 \<le> round_even m"
proof -
  define q where "q = ulp_of m"
  define k where "k = m div q"
  have q: "0 < q" "2 \<le> q" "q * 2 ^ 52 \<le> m"
    using ulp_of_pos[of m] ulp_of_ge2[OF assms] ulp_of_le[OF assms] by (simp_all add: q_def)
  have "(q * 2 ^ 52) div q \<le> m div q"
    using q by (intro zdiv_mono1) auto
  then have k52: "2 ^ 52 \<le> k" using q by (simp add: k_def)
  have "2 ^ 52 * 2 \<le> k * q"
    using k52 q by (intro mult_mono) auto
  then have kq: "2 ^ 53 \<le> k * q" by simp
  moreover have "k * q \<le> (k + 1) * q" using q by (simp add: algebra_simps)
  ultimately have "2 ^ 53 \<le> (k + 1) * q" by linarith
  with kq show ?thesis
    unfolding round_even_def Let_def q_def[symmetric] k_def[symmetric] by simp
qed

lemma to_number_large: "2 ^ 53 \<le> x \<Longrightarrow> 2 ^ 53 \<le> to_number x"
  using round_even_large[of x] by (simp add: to_number_def)

lemma digits_value_nonneg_aux: "0 \<le> a \<Longrightarrow> list_all is_digit z \<Longrightarrow>
    0 \<le> foldl (\<lambda>a c. 10 * a + (int c - 48)) a z"
  by (induction z arbitrary: a) (auto simp: is_digit_def)

lemma digits_value_nonneg: "list_all is_digit z \<Longrightarrow> 0 \<le> digits_value z"
  unfolding digits_value_def by (rule digits_value_nonneg_aux) simp

lemma digit_not_space: "is_digit c \<Longrightarrow> \<not> is_white_space c"
  by (auto simp: is_digit_def is_white_space_def)

lemma takeWhile_all: "list_all P z \<Longrightarrow> takeWhile P z = z"
  by (induction z) auto

lemma parseInt10_digits:
  assumes "digits_only t"
  shows "parseInt10 t = Some (to_number (digits_value t))"
proof -
  from assms obtain c r where t: "t = c # r" and c: "is_digit c" and all: "list_all is_digit t"
    by (cases t) (auto simp: digits_only_def)
  have ws: "dropWhile is_white_space t = t" using t c by (simp add: digit_not_space)
  have sg: "c \<noteq> 43" "c \<noteq> 45" using c by (auto simp: is_digit_def)
  have tw: "takeWhile is_digit t = t" using all by (rule takeWhile_all)
  show ?thesis
    unfolding parseInt10_def Let_def ws using sg tw t by simp
qed

lemma to_number_checks:
  assumes "0 \<le> v"
  shows "(to_number v \<le> 0 \<or> to_number v > MAX_SAFE_INTEGER) \<longleftrightarrow> \<not> (0 < v \<and> v \<le> MAX_SAFE_INTEGER)"
    and "v \<le> MAX_SAFE_INTEGER \<Longrightarrow> to_number v = v"
proof -
  show "v \<le> MAX_SAFE_INTEGER \<Longrightarrow> to_number v = v"
    using assms by (intro to_number_small) (auto simp: MAX_SAFE_INTEGER_def)
  show "(to_number v \<le> 0 \<or> to_number v > MAX_SAFE_INTEGER) \<longleftrightarrow> \<not> (0 < v \<and> v \<le> MAX_SAFE_INTEGER)"
  proof (cases "v < 2 ^ 53")
    case True
    then have "to_number v = v" using assms by (intro to_number_small)
    then show ?thesis using True by (auto simp: MAX_SAFE_INTEGER_def)
  next
    case False
    then have "2 ^ 53 \<le> to_number v" by (intro to_number_large) simp
    then show ?thesis using False by (auto simp: MAX_SAFE_INTEGER_def)
  qed
qed

text \<open>
  C10: \<open>validateId\<close> returns \<open>isValid = true\<close> exactly when the argument is neither \<open>null\<close>
  nor \<open>undefined\<close> and its trimmed string is made of decimal digits only whose value \<open>v\<close>
  satisfies \<open>0 < v \<le> MAX_SAFE_INTEGER\<close>; it then returns \<open>value = v\<close>, and no value
  otherwise. The function of the source equals the function that says so.
\<close>

theorem validateId_refines: "validateId idv = validateId_spec idv"
proof (cases idv)
  case JSNull
  then show ?thesis by (simp add: validateId_def validateId_spec_def)
next
  case JSUndefined
  then show ?thesis by (simp add: validateId_def validateId_spec_def)
next
  case (JSValue str)
  show ?thesis
  proof (cases "digits_only (trim str)")
    case False
    then show ?thesis using JSValue
      by (auto simp add: validateId_def validateId_spec_def Let_def digits_only_def digits_value_def)
  next
    case True
    then have nn: "0 \<le> digits_value (trim str)"
      by (simp add: digits_only_def digits_value_nonneg)
    show ?thesis
      using JSValue True parseInt10_digits[OF True] to_number_checks[OF nn]
      by (auto simp: validateId_def validateId_spec_def Let_def digits_only_def)
  qed
qed

text \<open>
  The cases the specification and the tests of the repository name: surrounding white
  space and leading zeros are accepted; \<open>0\<close>, a negative number, a decimal, a mixed
  string, the empty string, \<open>null\<close> and \<open>undefined\<close> are rejected.
\<close>

theorem validateId_examples:
  "validateId (JSValue (utf16 ''  456  '')) = \<lparr>isValid = True, id_value = Some 456\<rparr> \<and>
   validateId (JSValue (utf16 ''00123'')) = \<lparr>isValid = True, id_value = Some 123\<rparr> \<and>
   validateId (JSValue (utf16 ''9007199254740991'')) = \<lparr>isValid = True, id_value = Some 9007199254740991\<rparr> \<and>
   validateId (JSValue (utf16 ''9007199254740993'')) = \<lparr>isValid = False, id_value = None\<rparr> \<and>
   validateId (JSValue (utf16 ''0'')) = \<lparr>isValid = False, id_value = None\<rparr> \<and>
   validateId (JSValue (utf16 ''-5'')) = \<lparr>isValid = False, id_value = None\<rparr> \<and>
   validateId (JSValue (utf16 ''12.3'')) = \<lparr>isValid = False, id_value = None\<rparr> \<and>
   validateId (JSValue (utf16 ''12a'')) = \<lparr>isValid = False, id_value = None\<rparr> \<and>
   validateId (JSValue (utf16 '''')) = \<lparr>isValid = False, id_value = None\<rparr> \<and>
   validateId JSNull = \<lparr>isValid = False, id_value = None\<rparr> \<and>
   validateId JSUndefined = \<lparr>isValid = False, id_value = None\<rparr>"
  unfolding validateId_refines
  by (simp add: validateId_spec_def utf16_def trim_def is_white_space_def is_digit_def
      digits_value_def MAX_SAFE_INTEGER_def)



section \<open>Problem 6: the token bucket\<close>

lemma is_allowed_tokens_le:
  "snd (snd (is_allowed self r key 1 now)) \<le> bucket_size self"
  by (simp add: is_allowed_def Let_def min_def)

lemma redis_get_setex:
  "redis_get (redis_setex r key ttl v t) key now = (if now < t + ttl then Some v else None)"
  by (simp add: redis_get_def redis_setex_def)

text \<open>
  C4 (as stated, for every call on a bucket with a stored state) fails once the stored
  state has expired: \<open>SETEX\<close> keeps it for 3600 seconds only. A bucket of capacity 2 that
  refills one token in 7200 seconds and was written empty at the time 0 is asked at the
  time 3602: \<open>min C (t + (now - t0) * r)\<close> is less than 1, yet the call finds no state,
  starts from a full bucket, answers true and stores 1.
\<close>

theorem expired_bucket_counterexample:
  "redis_get (redis_setex Map.empty ''bucket:u1'' 3600 \<lparr>tokens = 0, last_refill = 0\<rparr> 0)
      ''bucket:u1'' 3602 = None
   \<and> snd (is_allowed \<lparr>bucket_size = 2, refill_rate = 1 / 7200\<rparr>
        (redis_setex Map.empty ''bucket:u1'' 3600 \<lparr>tokens = 0, last_refill = 0\<rparr> 0)
        ''u1'' 1 3602) = (True, 1)
   \<and> min 2 (0 + (3602 - 0) * (1 / 7200)) < (1 :: real)"
  by (simp add: is_allowed_def redis_get_def redis_setex_def)

text \<open>
  C4 (amended): a call of \<open>is_allowed\<close> for one token at the time \<open>now\<close>, on a bucket whose
  state (token count \<open>t\<close>, last refill \<open>t0\<close>) is stored and has not expired, computes
  \<open>refilled = min C (t + (now - t0) * r)\<close>, answers true and stores \<open>refilled - 1\<close> when
  \<open>refilled \<ge> 1\<close>, answers false and stores \<open>refilled\<close> otherwise. On a key without a state,
  never written or expired 3600 seconds after its last write, the bucket starts full:
  the call answers true and stores \<open>C - 1\<close> when \<open>C \<ge> 1\<close>, answers false and stores \<open>C\<close>
  otherwise. In every case the call writes the token count with \<open>now\<close> as the last
  refill, to be read for the next 3600 seconds, and the count it stores never exceeds
  \<open>C\<close>.
\<close>

theorem is_allowed_bucket:
  fixes C rate t t0 now now' :: real and r :: "bucket redis" and key :: string
  defines "refilled \<equiv> min C (t + (now - t0) * rate)"
  defines "stored \<equiv> (if refilled \<ge> 1 then refilled - 1 else refilled)"
  defines "started \<equiv> (if C \<ge> 1 then C - 1 else C)"
  defines "answer \<equiv> is_allowed \<lparr>bucket_size = C, refill_rate = rate\<rparr> r key 1 now"
  shows "(redis_get r (''bucket:'' @ key) now = Some \<lparr>tokens = t, last_refill = t0\<rparr> \<longrightarrow>
            answer
              = (redis_setex r (''bucket:'' @ key) 3600 \<lparr>tokens = stored, last_refill = now\<rparr> now,
                 refilled \<ge> 1, stored))
         \<and> (redis_get r (''bucket:'' @ key) now = None \<longrightarrow>
            answer
              = (redis_setex r (''bucket:'' @ key) 3600 \<lparr>tokens = started, last_refill = now\<rparr> now,
                 C \<ge> 1, started))
         \<and> stored \<le> C \<and> started \<le> C
         \<and> redis_get (fst answer) (''bucket:'' @ key) now'
             = (if now' < now + 3600
                then Some \<lparr>tokens = snd (snd answer), last_refill = now\<rparr> else None)
         \<and> snd (snd answer) \<le> C"
proof -
  have "snd (snd answer) \<le> C"
    using is_allowed_tokens_le[of "\<lparr>bucket_size = C, refill_rate = rate\<rparr>" r key now]
    by (simp add: answer_def)
  moreover have "redis_get (fst answer) (''bucket:'' @ key) now'
      = (if now' < now + 3600
         then Some \<lparr>tokens = snd (snd answer), last_refill = now\<rparr> else None)"
    by (simp add: answer_def is_allowed_def Let_def redis_get_setex)
  moreover have "redis_get r (''bucket:'' @ key) now = Some \<lparr>tokens = t, last_refill = t0\<rparr> \<longrightarrow>
      answer
        = (redis_setex r (''bucket:'' @ key) 3600 \<lparr>tokens = stored, last_refill = now\<rparr> now,
           refilled \<ge> 1, stored)"
    by (simp add: answer_def is_allowed_def Let_def refilled_def stored_def)
  moreover have "redis_get r (''bucket:'' @ key) now = None \<longrightarrow>
      answer
        = (redis_setex r (''bucket:'' @ key) 3600 \<lparr>tokens = started, last_refill = now\<rparr> now,
           C \<ge> 1, started)"
    by (simp add: answer_def is_allowed_def Let_def started_def)
  moreover have "stored \<le> C" "started \<le> C"
    by (simp_all add: stored_def refilled_def started_def min_def)
  ultimately show ?thesis by simp
qed

theorem is_allowed_bucket_witness:
  "is_allowed \<lparr>bucket_size = 10, refill_rate = 1 / 6\<rparr>
      [''bucket:u1'' \<mapsto> (\<lparr>tokens = 1 / 2, last_refill = 100\<rparr>, 3700)] ''u1'' 1 106
    = ([''bucket:u1'' \<mapsto> (\<lparr>tokens = 1 / 2, last_refill = 106\<rparr>, 3706)], True, 1 / 2)
   \<and> is_allowed \<lparr>bucket_size = 10, refill_rate = 1 / 6\<rparr>
      [''bucket:u1'' \<mapsto> (\<lparr>tokens = 1 / 2, last_refill = 100\<rparr>, 3700)] ''u1'' 1 101
    = ([''bucket:u1'' \<mapsto> (\<lparr>tokens = 2 / 3, last_refill = 101\<rparr>, 3701)], False, 2 / 3)
   \<and> is_allowed \<lparr>bucket_size = 10, refill_rate = 1 / 6\<rparr>
      [''bucket:u1'' \<mapsto> (\<lparr>tokens = 1 / 2, last_refill = 100\<rparr>, 3700)] ''u1'' 1 3700
    = ([''bucket:u1'' \<mapsto> (\<lparr>tokens = 9, last_refill = 3700\<rparr>, 7300)], True, 9)"
  using is_allowed_bucket[where r = "[''bucket:u1'' \<mapsto> (\<lparr>tokens = 1 / 2, last_refill = 100\<rparr>, 3700)]"
      and key = "''u1''" and now = 106 and t = "1 / 2" and ?t0.0 = 100 and C = 10
      and rate = "1 / 6" and now' = 106]
    is_allowed_bucket[where r = "[''bucket:u1'' \<mapsto> (\<lparr>tokens = 1 / 2, last_refill = 100\<rparr>, 3700)]"
      and key = "''u1''" and now = 101 and t = "1 / 2" and ?t0.0 = 100 and C = 10
      and rate = "1 / 6" and now' = 101]
    is_allowed_bucket[where r = "[''bucket:u1'' \<mapsto> (\<lparr>tokens = 1 / 2, last_refill = 100\<rparr>, 3700)]"
      and key = "''u1''" and now = 3700 and t = "1 / 2" and ?t0.0 = 100 and C = 10
      and rate = "1 / 6" and now' = 3700]
  by (simp add: redis_get_def redis_setex_def)

section \<open>Problem 6: the rate limiting middleware\<close>

text \<open>
  C5 (as stated) fails: with the layers as token buckets, an IP bucket of 5 tokens a second
  that holds no token is the one failing layer, \<open>(1 - availableTokens) / refillRate\<close> is
  a fifth of a second, and the middleware raises with \<open>retry_after = 60\<close>.
\<close>

theorem retry_after_counterexample:
  "rate_limit_middleware
      (bucket_check \<lparr>bucket_size = 300, refill_rate = 5\<rparr> ''rate_limit:ip:10.0.0.1:global'' 1000)
      (bucket_check \<lparr>bucket_size = 60, refill_rate = 1\<rparr> ''rate_limit:user:7:global'' 1000)
      (bucket_check \<lparr>bucket_size = 10, refill_rate = 1 / 6\<rparr>
         ''rate_limit:user:7:action:puzzle_complete'' 1000)
      (bucket_check \<lparr>bucket_size = 1, refill_rate = 1 / 3\<rparr> ''rate_limit:user:7:interval'' 1000)
      [''bucket:rate_limit:ip:10.0.0.1:global'' \<mapsto> (\<lparr>tokens = 0, last_refill = 1000\<rparr>, 4600)]
    = (Inl (RateLimitExceeded ''IP rate limit exceeded'' 60),
       [''bucket:rate_limit:ip:10.0.0.1:global'' \<mapsto> (\<lparr>tokens = 0, last_refill = 1000\<rparr>, 4600)])
   \<and> snd (is_allowed \<lparr>bucket_size = 300, refill_rate = 5\<rparr>
        [''bucket:rate_limit:ip:10.0.0.1:global'' \<mapsto> (\<lparr>tokens = 0, last_refill = 1000\<rparr>, 4600)]
        ''rate_limit:ip:10.0.0.1:global'' 1 1000) = (False, 0)
   \<and> fst (bucket_check \<lparr>bucket_size = 60, refill_rate = 1\<rparr> ''rate_limit:user:7:global'' 1000
        [''bucket:rate_limit:ip:10.0.0.1:global'' \<mapsto> (\<lparr>tokens = 0, last_refill = 1000\<rparr>, 4600)])
   \<and> fst (bucket_check \<lparr>bucket_size = 10, refill_rate = 1 / 6\<rparr>
        ''rate_limit:user:7:action:puzzle_complete'' 1000
        [''bucket:rate_limit:ip:10.0.0.1:global'' \<mapsto> (\<lparr>tokens = 0, last_refill = 1000\<rparr>, 4600)])
   \<and> fst (bucket_check \<lparr>bucket_size = 1, refill_rate = 1 / 3\<rparr> ''rate_limit:user:7:interval'' 1000
        [''bucket:rate_limit:ip:10.0.0.1:global'' \<mapsto> (\<lparr>tokens = 0, last_refill = 1000\<rparr>, 4600)])
   \<and> spec_retry_after [(0, 5)] = 1 / 5
   \<and> spec_retry_after [(0, 5)] \<noteq> 60"
  by (simp add: rate_limit_middleware_def bucket_check_def is_allowed_def redis_get_def
      redis_setex_def spec_retry_after_def)

text \<open>
  C5 (amended): when \<open>rate_limit_middleware\<close> denies a request, the \<open>retry_after\<close> it raises
  is the constant written beside the first check that fails, in the order IP (60), user
  (60), action (30), minimum interval (3); it is not computed from token counts. The
  checks after the first failing one are not evaluated: the rate limiting state is the
  one the failing check leaves.
\<close>

theorem rate_limit_middleware_retry_after:
  assumes "fst (rate_limit_middleware c1 c2 c3 c4 s0) = Inl e"
  shows "retry_after e =
           (if \<not> fst (c1 s0) then 60
            else if \<not> fst (c2 (snd (c1 s0))) then 60
            else if \<not> fst (c3 (snd (c2 (snd (c1 s0))))) then 30
            else 3)
         \<and> snd (rate_limit_middleware c1 c2 c3 c4 s0) =
           (if \<not> fst (c1 s0) then snd (c1 s0)
            else if \<not> fst (c2 (snd (c1 s0))) then snd (c2 (snd (c1 s0)))
            else if \<not> fst (c3 (snd (c2 (snd (c1 s0))))) then snd (c3 (snd (c2 (snd (c1 s0)))))
            else snd (c4 (snd (c3 (snd (c2 (snd (c1 s0))))))))"
  using assms
  by (auto simp: rate_limit_middleware_def Let_def split: prod.splits if_splits)

text \<open>
  Four checks that write their number to the state: the third fails, the fourth leaves
  no trace.
\<close>

theorem rate_limit_middleware_retry_after_witness:
  "rate_limit_middleware (\<lambda>s. (True, s @ [1])) (\<lambda>s. (True, s @ [2])) (\<lambda>s. (False, s @ [3]))
      (\<lambda>s. (True, s @ [4])) ([] :: nat list)
     = (Inl (RateLimitExceeded ''Action rate limit exceeded'' 30), [1, 2, 3])
   \<and> retry_after (RateLimitExceeded ''Action rate limit exceeded'' 30) = 30"
  using rate_limit_middleware_retry_after[of "\<lambda>s. (True, s @ [1])" "\<lambda>s. (True, s @ [2])"
      "\<lambda>s. (False, s @ [3])" "\<lambda>s. (True, s @ [4])" "[] :: nat list"
      "RateLimitExceeded ''Action rate limit exceeded'' 30"]
  by (simp add: rate_limit_middleware_def)

section \<open>Problem 6: ranks and the leaderboard\<close>






















section \<open>Problem 6: the score update transaction\<close>

lemma find_map_score:
  "find (\<lambda>u. uid u = i) (map (\<lambda>u. if uid u = j then u\<lparr>score := score u + d\<rparr> else u) xs)
     = map_option (\<lambda>u. if uid u = j then u\<lparr>score := score u + d\<rparr> else u)
         (find (\<lambda>u. uid u = i) xs)"
  by (induction xs) auto

lemma transaction_ok:
  assumes "score_update_transaction db a = Inr (db1, s)"
  shows "db_score_history db1 = db_score_history db @ [history_row a]"
    and "current_score db1 i
       = map_option (\<lambda>s. s + (if att_user a = i then att_points a else 0)) (current_score db i)"
    and "current_score db1 (att_user a) = Some s"
proof -
  let ?users' = "map (\<lambda>u. if uid u = att_user a
                            then u\<lparr>score := score u + att_points a\<rparr> else u) (db_users db)"
  from assms obtain u where u: "find (\<lambda>u. uid u = att_user a) ?users' = Some u"
    and db1: "db1 = db\<lparr>db_users := ?users', db_score_history := db_score_history db @ [history_row a]\<rparr>"
    and s: "s = score u"
    by (auto simp: score_update_transaction_def Let_def split: if_splits option.splits)
  show "db_score_history db1 = db_score_history db @ [history_row a]" using db1 by simp
  show "current_score db1 (att_user a) = Some s"
    using u s db1 by (simp add: current_score_def)
  show "current_score db1 i
       = map_option (\<lambda>s. s + (if att_user a = i then att_points a else 0)) (current_score db i)"
  proof (cases "find (\<lambda>u. uid u = i) (db_users db)")
    case None
    then show ?thesis using db1 by (simp add: current_score_def find_map_score)
  next
    case (Some v)
    then have "uid v = i" by (auto simp: find_Some_iff)
    then show ?thesis using db1 Some by (simp add: current_score_def find_map_score)
  qed
qed

lemma deltas_of_append: "deltas_of i (xs @ ys) = deltas_of i xs + deltas_of i ys"
  by (simp add: deltas_of_def)

lemma accepted_Cons:
  "accepted (a # as) (r # rs) = (if isl r then accepted as rs else a # accepted as rs)"
  by (simp add: accepted_def)

text \<open>
  C1: for every identity and every finite sequence of attempts of the score update
  transaction, in whatever order the database serializes them, the rows appended to
  \<open>score_history\<close> are exactly the rows of the attempts that returned success, in order,
  and the identity's final score is its initial score plus the sum of the deltas of
  those rows for it: no accepted update is lost and none is applied twice.
\<close>

theorem apply_all_sum:
  assumes "apply_all db as = (db', rs)"
  shows "length rs = length as
       \<and> db_score_history db' = db_score_history db @ map history_row (accepted as rs)
       \<and> current_score db' i
           = map_option (\<lambda>s. s + deltas_of i (map history_row (accepted as rs)))
               (current_score db i)"
  using assms
proof (induction as arbitrary: db db' rs)
  case Nil
  then show ?case by (simp add: accepted_def deltas_of_def option.map_ident)
next
  case (Cons a as)
  show ?case
  proof (cases "score_update_transaction db a")
    case (Inl e)
    then obtain rs' where rs: "rs = Inl e # rs'" and rest: "apply_all db as = (db', rs')"
      using Cons.prems by (auto split: prod.splits)
    from Cons.IH[OF rest] show ?thesis using rs by (simp add: accepted_Cons)
  next
    case (Inr p)
    then obtain db1 s where p: "score_update_transaction db a = Inr (db1, s)"
      by (cases p) auto
    then obtain rs' where rs: "rs = Inr s # rs'" and rest: "apply_all db1 as = (db', rs')"
      using Cons.prems by (auto split: prod.splits)
    have add: "deltas_of i (history_row a # map history_row (accepted as rs'))
        = (if att_user a = i then att_points a else 0)
          + deltas_of i (map history_row (accepted as rs'))"
      by (simp add: deltas_of_def history_row_def)
    from Cons.IH[OF rest] show ?thesis
      using rs transaction_ok(1)[OF p] transaction_ok(2)[OF p, of i] add
      by (simp add: accepted_Cons option.map_comp comp_def add.assoc)
  qed
qed


theorem apply_all_sum_witness:
  "snd (apply_all
        \<lparr>db_users = [\<lparr>uid = 1, username = ''a'', score = 100, is_active = Some True\<rparr>],
         db_score_history = [], db_action_nonces = [], db_security_incidents = []\<rparr>
        [\<lparr>att_user = 1, att_points = 50, att_action = ''puzzle_complete'', att_time = 10,
           att_conflict = False\<rparr>,
         \<lparr>att_user = 1, att_points = 20, att_action = ''game_finish'', att_time = 11,
           att_conflict = True\<rparr>,
         \<lparr>att_user = 1, att_points = 20, att_action = ''game_finish'', att_time = 11,
           att_conflict = False\<rparr>,
         \<lparr>att_user = 9, att_points = 5, att_action = ''game_finish'', att_time = 12,
           att_conflict = False\<rparr>])
     = [Inr 150, Inl OptimisticLockConflict, Inr 170, Inl ForeignKeyViolation]
   \<and> current_score (fst (apply_all
        \<lparr>db_users = [\<lparr>uid = 1, username = ''a'', score = 100, is_active = Some True\<rparr>],
         db_score_history = [], db_action_nonces = [], db_security_incidents = []\<rparr>
        [\<lparr>att_user = 1, att_points = 50, att_action = ''puzzle_complete'', att_time = 10,
           att_conflict = False\<rparr>,
         \<lparr>att_user = 1, att_points = 20, att_action = ''game_finish'', att_time = 11,
           att_conflict = True\<rparr>,
         \<lparr>att_user = 1, att_points = 20, att_action = ''game_finish'', att_time = 11,
           att_conflict = False\<rparr>,
         \<lparr>att_user = 9, att_points = 5, att_action = ''game_finish'', att_time = 12,
           att_conflict = False\<rparr>])) 1 = Some 170
   \<and> map hist_points_added (db_score_history (fst (apply_all
        \<lparr>db_users = [\<lparr>uid = 1, username = ''a'', score = 100, is_active = Some True\<rparr>],
         db_score_history = [], db_action_nonces = [], db_security_incidents = []\<rparr>
        [\<lparr>att_user = 1, att_points = 50, att_action = ''puzzle_complete'', att_time = 10,
           att_conflict = False\<rparr>,
         \<lparr>att_user = 1, att_points = 20, att_action = ''game_finish'', att_time = 11,
           att_conflict = True\<rparr>,
         \<lparr>att_user = 1, att_points = 20, att_action = ''game_finish'', att_time = 11,
           att_conflict = False\<rparr>,
         \<lparr>att_user = 9, att_points = 5, att_action = ''game_finish'', att_time = 12,
           att_conflict = False\<rparr>]))) = [50, 20]"
  using apply_all_sum[of
      "\<lparr>db_users = [\<lparr>uid = 1, username = ''a'', score = 100, is_active = Some True\<rparr>],
         db_score_history = [], db_action_nonces = [], db_security_incidents = []\<rparr>"
      "[\<lparr>att_user = 1, att_points = 50, att_action = ''puzzle_complete'', att_time = 10,
           att_conflict = False\<rparr>,
         \<lparr>att_user = 1, att_points = 20, att_action = ''game_finish'', att_time = 11,
           att_conflict = True\<rparr>,
         \<lparr>att_user = 1, att_points = 20, att_action = ''game_finish'', att_time = 11,
           att_conflict = False\<rparr>,
         \<lparr>att_user = 9, att_points = 5, att_action = ''game_finish'', att_time = 12,
           att_conflict = False\<rparr>]"
      "fst (apply_all
        \<lparr>db_users = [\<lparr>uid = 1, username = ''a'', score = 100, is_active = Some True\<rparr>],
         db_score_history = [], db_action_nonces = [], db_security_incidents = []\<rparr>
        [\<lparr>att_user = 1, att_points = 50, att_action = ''puzzle_complete'', att_time = 10,
           att_conflict = False\<rparr>,
         \<lparr>att_user = 1, att_points = 20, att_action = ''game_finish'', att_time = 11,
           att_conflict = True\<rparr>,
         \<lparr>att_user = 1, att_points = 20, att_action = ''game_finish'', att_time = 11,
           att_conflict = False\<rparr>,
         \<lparr>att_user = 9, att_points = 5, att_action = ''game_finish'', att_time = 12,
           att_conflict = False\<rparr>])"
      "snd (apply_all
        \<lparr>db_users = [\<lparr>uid = 1, username = ''a'', score = 100, is_active = Some True\<rparr>],
         db_score_history = [], db_action_nonces = [], db_security_incidents = []\<rparr>
        [\<lparr>att_user = 1, att_points = 50, att_action = ''puzzle_complete'', att_time = 10,
           att_conflict = False\<rparr>,
         \<lparr>att_user = 1, att_points = 20, att_action = ''game_finish'', att_time = 11,
           att_conflict = True\<rparr>,
         \<lparr>att_user = 1, att_points = 20, att_action = ''game_finish'', att_time = 11,
           att_conflict = False\<rparr>,
         \<lparr>att_user = 9, att_points = 5, att_action = ''game_finish'', att_time = 12,
           att_conflict = False\<rparr>])" 1]
  by (simp add: score_update_transaction_def in_integer_range_def history_row_def
      current_score_def accepted_def deltas_of_def)


section \<open>Problem 6: validation, the request and the cache\<close>

lemmas demo_simps = downstream_unavailable_def demo_hmac_def demo_valid_def demo_proof_def demo_state_def demo_env_def
   handle_score_update_def validate_request_def apply_request_def request_attempt_def
   duplicate_action_def validate_action_proof_def is_timestamp_fresh_def secure_compare_def
   is_nonce_used_def score_update_transaction_def in_integer_range_def history_row_def
   refresh_cache_def broadcast_def cache_set_def cache_delete_def select_top_10_def
   redis_setex_def users_by_score_def leaderboard_query_def ranked_users_def active_users_def user_rank_query_def

lemma refresh_cache_db: "st_db (refresh_cache env st) = st_db st"
  by (simp add: refresh_cache_def downstream_unavailable_def)

lemma broadcast_db: "st_db (broadcast env user_id st) = st_db st"
  by (simp add: broadcast_def downstream_unavailable_def)







lemma validate_stale:
  "validate_action_proof gh vd now db pf secret = Inl (InvalidActionError ''Timestamp too old'')
     \<longleftrightarrow> \<bar>now - proof_timestamp pf\<bar> > 30"
  by (auto simp: validate_action_proof_def is_timestamp_fresh_def)

text \<open>
  C3: \<open>validate_action_proof\<close> raises "Timestamp too old" (the rejection \<open>StaleProof\<close>) if
  and only if \<open>|now - proof.timestamp|\<close> exceeds 30 seconds, for a timestamp in the past as
  for one in the future and whatever the other fields of the proof are, the freshness
  check being the first; and a request with a stale proof leaves the whole server state
  as it was (no score change, no broadcast) and is answered with an error.
\<close>

theorem stale_proof_rejected:
  "(validate_action_proof gh vd now db pf secret = Inl (InvalidActionError ''Timestamp too old'')
      \<longleftrightarrow> \<bar>now - proof_timestamp pf\<bar> > 30)
   \<and> (\<bar>env_now env - proof_timestamp pf\<bar> > 30 \<longrightarrow>
        snd (handle_score_update gh vd env st pf) = st
        \<and> (fst (handle_score_update gh vd env st pf) = HTTP_400
           \<or> fst (handle_score_update gh vd env st pf) = HTTP_401))"
proof -
  have handled: "snd (handle_score_update gh vd env st pf) = st
      \<and> (fst (handle_score_update gh vd env st pf) = HTTP_400
         \<or> fst (handle_score_update gh vd env st pf) = HTTP_401)"
    if "\<bar>env_now env - proof_timestamp pf\<bar> > 30"
  proof -
    have "validate_action_proof gh vd (env_now env) (st_db st) pf (env_user_secret env)
        = Inl (InvalidActionError ''Timestamp too old'')"
      using that by (simp add: validate_stale)
    then show ?thesis
      by (simp add: handle_score_update_def validate_request_def split: option.splits)
  qed
  show ?thesis using handled validate_stale[of gh vd now db pf secret] by blast
qed

theorem stale_proof_rejected_witness:
  "validate_action_proof demo_hmac demo_valid 1000 (st_db demo_state)
      (demo_proof\<lparr>proof_timestamp := 955\<rparr>) ''secret''
     = Inl (InvalidActionError ''Timestamp too old'')
   \<and> validate_action_proof demo_hmac demo_valid 1000 (st_db demo_state)
      (demo_proof\<lparr>proof_timestamp := 1045\<rparr>) ''secret''
     = Inl (InvalidActionError ''Timestamp too old'')
   \<and> handle_score_update demo_hmac demo_valid demo_env demo_state
      (demo_proof\<lparr>proof_timestamp := 955\<rparr>) = (HTTP_400, demo_state)"
  using stale_proof_rejected[of demo_hmac demo_valid 1000 "st_db demo_state"
      "demo_proof\<lparr>proof_timestamp := 955\<rparr>" "''secret''" demo_env demo_state]
    stale_proof_rejected[of demo_hmac demo_valid 1000 "st_db demo_state"
      "demo_proof\<lparr>proof_timestamp := 1045\<rparr>" "''secret''" demo_env demo_state]
  by (simp add: demo_simps log_incident_def prod_eq_iff)


lemma log_incident_scores:
  "db_users (st_db (log_incident user_id incident st)) = db_users (st_db st)"
  "db_score_history (st_db (log_incident user_id incident st)) = db_score_history (st_db st)"
  by (simp_all add: log_incident_def)

lemma handle_applied_or_not:
  "(\<exists>s r. fst (handle_score_update gh vd env st pf) = HTTP_200 s r)
   \<or> (db_users (st_db (snd (handle_score_update gh vd env st pf))) = db_users (st_db st)
      \<and> db_score_history (st_db (snd (handle_score_update gh vd env st pf)))
          = db_score_history (st_db st))"
  by (simp add: handle_score_update_def validate_request_def apply_request_def Let_def
      log_incident_scores
      split: option.splits sum.splits InvalidActionError.splits prod.splits)

text \<open>
  C7: once the transaction of a request has committed (the request has passed the token,
  the validation of the proof, the rate limit and the duplicate check, and its
  transaction returns the committed database), the response is the success response with
  the new score, and the database is the committed one, whether or not the cache refresh
  and the broadcast fail; and a request that is answered with an error has changed
  neither a score nor the score history.
\<close>

theorem committed_update_stands:
  "(env_auth env = Some user_id
      \<and> validate_action_proof gh vd (env_now env) (st_db st) pf (env_user_secret env) = Inr v
      \<and> env_rate_limit env = Inr ok
      \<and> \<not> duplicate_action (st_db st)
            \<lparr>att_user = user_id, att_points = proof_expected_points pf,
             att_action = proof_action_type pf, att_time = proof_timestamp pf,
             att_conflict = False\<rparr>
      \<and> run_transaction (st_db st)
            \<lparr>att_user = user_id, att_points = proof_expected_points pf,
             att_action = proof_action_type pf, att_time = proof_timestamp pf,
             att_conflict = False\<rparr> (env_conflicts env) = Inr (db', new_score)
      \<longrightarrow> fst (handle_score_update gh vd (env\<lparr>env_cache_ok := c, env_broadcast_ok := b\<rparr>) st pf)
            = HTTP_200 new_score (user_rank_query (db_users db') user_id)
          \<and> st_db (snd (handle_score_update gh vd
                (env\<lparr>env_cache_ok := c, env_broadcast_ok := b\<rparr>) st pf)) = db')
   \<and> ((\<forall>s r. fst (handle_score_update gh vd env st pf) \<noteq> HTTP_200 s r)
      \<longrightarrow> db_users (st_db (snd (handle_score_update gh vd env st pf))) = db_users (st_db st)
          \<and> db_score_history (st_db (snd (handle_score_update gh vd env st pf)))
              = db_score_history (st_db st))"
proof -
  have "fst (handle_score_update gh vd (env\<lparr>env_cache_ok := c, env_broadcast_ok := b\<rparr>) st pf)
            = HTTP_200 new_score (user_rank_query (db_users db') user_id)
          \<and> st_db (snd (handle_score_update gh vd
                (env\<lparr>env_cache_ok := c, env_broadcast_ok := b\<rparr>) st pf)) = db'"
    if "env_auth env = Some user_id"
      "validate_action_proof gh vd (env_now env) (st_db st) pf (env_user_secret env) = Inr v"
      "env_rate_limit env = Inr ok"
      "\<not> duplicate_action (st_db st)
            \<lparr>att_user = user_id, att_points = proof_expected_points pf,
             att_action = proof_action_type pf, att_time = proof_timestamp pf,
             att_conflict = False\<rparr>"
      "run_transaction (st_db st)
            \<lparr>att_user = user_id, att_points = proof_expected_points pf,
             att_action = proof_action_type pf, att_time = proof_timestamp pf,
             att_conflict = False\<rparr> (env_conflicts env) = Inr (db', new_score)"
    using that
    by (simp add: handle_score_update_def validate_request_def apply_request_def
        request_attempt_def Let_def refresh_cache_db broadcast_db)
  then show ?thesis using handle_applied_or_not[of gh vd env st pf] by blast
qed

theorem committed_update_stands_witness:
  "handle_score_update demo_hmac demo_valid
      (demo_env\<lparr>env_cache_ok := False, env_broadcast_ok := False\<rparr>) demo_state demo_proof
     = (HTTP_200 150 [1],
        demo_state\<lparr>st_db := (st_db demo_state)
            \<lparr>db_users := [\<lparr>uid = 1, username = ''a'', score = 150, is_active = Some True\<rparr>],
             db_score_history :=
               [\<lparr>hist_user_id = 1, hist_action_type = ''puzzle_complete'',
                 hist_points_added = 50, hist_timestamp = 1000\<rparr>]\<rparr>,
          st_telemetry := [''DownstreamUnavailable'', ''DownstreamUnavailable'']\<rparr>)
   \<and> fst (handle_score_update demo_hmac demo_valid (demo_env\<lparr>env_auth := None\<rparr>)
           demo_state demo_proof) = HTTP_401
   \<and> snd (handle_score_update demo_hmac demo_valid (demo_env\<lparr>env_auth := None\<rparr>)
           demo_state demo_proof) = demo_state"
  using committed_update_stands[of demo_env 1 demo_hmac demo_valid demo_state demo_proof True
      True "(st_db demo_state)
            \<lparr>db_users := [\<lparr>uid = 1, username = ''a'', score = 150, is_active = Some True\<rparr>],
             db_score_history :=
               [\<lparr>hist_user_id = 1, hist_action_type = ''puzzle_complete'',
                 hist_points_added = 50, hist_timestamp = 1000\<rparr>]\<rparr>" 150 False False]
    committed_update_stands[of "demo_env\<lparr>env_auth := None\<rparr>" 1 demo_hmac demo_valid
      demo_state demo_proof True True "st_db demo_state" 0 False False]
  by (simp add: demo_simps prod_eq_iff)

text \<open>
  C8 (as stated) fails: the cache compares no generations. When the refresh that selected
  generation 2 writes first and the refresh that selected generation 1 writes after it,
  the cache goes from generation 2 back to generation 1.
\<close>

theorem cache_regresses:
  "map_option snap_generation
      (cache_get (cache_sets Map.empty [(\<lparr>snap_rows = [], snap_generation = 2\<rparr>, 10)]) 12)
     = Some 2
   \<and> map_option snap_generation
      (cache_get (cache_sets Map.empty [(\<lparr>snap_rows = [], snap_generation = 2\<rparr>, 10),
                                        (\<lparr>snap_rows = [], snap_generation = 1\<rparr>, 11)]) 12)
     = Some 1"
  by (simp add: cache_get_def cache_set_def redis_get_def redis_setex_def)

text \<open>
  C8 (amended): every \<open>SET\<close> replaces the cached snapshot by the one it carries, whatever
  the two generations are: after any sequence of writes the cache holds the snapshot of
  the last write, for the 60 seconds of its TTL.
\<close>

theorem cache_last_write_wins:
  "cache_get (cache_sets cache (writes @ [(snap, t)])) now
     = (if now < t + 60 then Some snap else None)"
  by (induction writes arbitrary: cache)
     (auto simp: cache_get_def cache_set_def redis_get_def redis_setex_def)


theorem cache_last_write_wins_witness:
  "cache_get (cache_sets Map.empty [(\<lparr>snap_rows = [], snap_generation = 2\<rparr>, 10),
                                    (\<lparr>snap_rows = [], snap_generation = 1\<rparr>, 11)]) 12
     = Some \<lparr>snap_rows = [], snap_generation = 1\<rparr>"
  using cache_last_write_wins[of Map.empty "[(\<lparr>snap_rows = [], snap_generation = 2\<rparr>, 10)]"
      "\<lparr>snap_rows = [], snap_generation = 1\<rparr>" 11 12]
  by simp

end
